theory Spec2Isabelle
  imports Complex_Main "HOL-Library.Word" "HOL-Library.AList"
begin

section \<open>Values exchanged with the API\<close>

text \<open>
  A parsed response body is a JavaScript value. Numbers are kept as integers: no claim
  treated below inspects a fractional body value. An object is the list of its own
  properties in insertion order, with distinct keys.
\<close>

datatype jsValue =
    JUndefined
  | JNull
  | JBool bool
  | JNum int
  | JStr string
  | JArr "jsValue list"
  | JObj "(string \<times> jsValue) list"

text \<open>Header names and values as Axios hands them over: a plain object of strings.\<close>

type_synonym headerMap = "(string \<times> string) list"

record response =
  status :: nat
  headers :: headerMap
  data :: jsValue

datatype httpVerb = GET | POST | PATCH | DELETE

text \<open>
  The request configuration. \<open>attemptIndex\<close> is the property \<^verbatim>\<open>_attemptIndex\<close>:
  \<open>None\<close> while the property is undefined.
\<close>

record axiosRequestConfig =
  verb :: httpVerb
  url :: string
  requestHeaders :: headerMap
  payload :: jsValue
  attemptIndex :: "int option"

text \<open>
  What a rejected request promise carries. \<open>isAxiosError\<close> is the result of
  \<^verbatim>\<open>axios.isAxiosError\<close>; \<open>errorResponse\<close> is \<open>None\<close> when no response was
  obtained; \<open>message\<close> is \<open>None\<close> when the value has no such property.
\<close>

record axiosError =
  isAxiosError :: bool
  errorConfig :: axiosRequestConfig
  errorResponse :: "response option"
  message :: "string option"

section \<open>The retrying transport (makeRetrying)\<close>

definition retryDelay :: int where
  "retryDelay = 2000"

definition attemptLimit :: int where
  "attemptLimit = 3"

definition checkError :: "axiosError \<Rightarrow> bool" where
  "checkError error = (isAxiosError error \<and> attemptIndex (errorConfig error) \<noteq> None)"

subsection \<open>Idempotency keys\<close>








subsection \<open>The Retry-After header\<close>

text \<open>
  The JavaScript numbers that occur here are NaN, the infinities and doubles whose value
  is an integer. \<open>toNumber\<close> is the double nearest to an integer, ties going to the even
  significand: every integer up to \<open>2^53\<close> in magnitude is a double itself; a larger one
  keeps its 53 leading bits, rounded; from \<open>2^1024\<close> on the result is an infinity.
  Zero carries no sign here.
\<close>

datatype jsNumber = NaN | Num int | PlusInfinity | MinusInfinity

function bitLength :: "int \<Rightarrow> nat" where
  "bitLength a = (if a \<le> 0 then 0 else Suc (bitLength (a div 2)))"
  by pat_completeness auto
termination
  by (relation "measure nat") auto

declare bitLength.simps [simp del]

definition roundToDouble :: "int \<Rightarrow> int" where
  "roundToDouble a =
     (let e = bitLength a - 53;
          q = a div 2 ^ e;
          r = a mod 2 ^ e;
          h = 2 ^ (e - 1)
      in (if h < r \<or> (r = h \<and> odd q) then q + 1 else q) * 2 ^ e)"

definition toNumber :: "int \<Rightarrow> jsNumber" where
  "toNumber n =
     (if \<bar>n\<bar> \<le> 2 ^ 53 then Num n
      else
        let m = roundToDouble \<bar>n\<bar>
        in if 2 ^ 1024 \<le> m then (if n < 0 then MinusInfinity else PlusInfinity)
           else Num (if n < 0 then - m else m))"

text \<open>The product of a number with a positive integer that is a double, as \<^verbatim>\<open>*\<close> gives it.\<close>

definition multiply :: "jsNumber \<Rightarrow> int \<Rightarrow> jsNumber" where
  "multiply x k =
     (case x of
        NaN \<Rightarrow> NaN
      | Num a \<Rightarrow> toNumber (a * k)
      | PlusInfinity \<Rightarrow> PlusInfinity
      | MinusInfinity \<Rightarrow> MinusInfinity)"

text \<open>
  \<^verbatim>\<open>parseInt(string, 10)\<close> as ECMAScript defines it: leading white space is skipped, one
  sign is read, then the longest run of decimal digits; with no digit the result is
  NaN, otherwise the number nearest to the signed integer read. ECMAScript lets an
  implementation replace the digits after the twentieth significant one by zeros; the
  whole run of digits is rounded here, as the engine of Node.js does. Header values are
  strings of 8-bit characters, among which the white space characters are TAB, LF, VT,
  FF, CR, SP and NBSP.
\<close>

definition isWhiteSpace :: "char \<Rightarrow> bool" where
  "isWhiteSpace c = ((of_char c :: nat) \<in> {9, 10, 11, 12, 13, 32, 160})"

definition isDigit :: "char \<Rightarrow> bool" where
  "isDigit c = (48 \<le> (of_char c :: nat) \<and> (of_char c :: nat) \<le> 57)"

definition digitValue :: "char \<Rightarrow> int" where
  "digitValue c = int (of_char c) - 48"

definition parseInt10 :: "string \<Rightarrow> jsNumber" where
  "parseInt10 inputString =
     (let S = dropWhile isWhiteSpace inputString;
          sign = (if S \<noteq> [] \<and> hd S = CHR ''-'' then - 1 else 1);
          S' = (if S \<noteq> [] \<and> (hd S = CHR ''+'' \<or> hd S = CHR ''-'') then tl S else S);
          Z = takeWhile isDigit S'
      in if Z = [] then NaN
         else toNumber (sign * foldl (\<lambda>acc c. 10 * acc + digitValue c) 0 Z))"

text \<open>
  Reading a property that the header object lacks gives \<^verbatim>\<open>undefined\<close>, which
  \<^verbatim>\<open>parseInt\<close> converts to the string \<^verbatim>\<open>"undefined"\<close> before parsing. The result is
  \<open>None\<close> for \<^verbatim>\<open>undefined\<close>.
\<close>

definition parseRetryAfterHeader :: "response \<Rightarrow> jsNumber option" where
  "parseRetryAfterHeader response =
     (let retryAfter =
            parseInt10 (case map_of (headers response) ''retry-after'' of
                          None \<Rightarrow> ''undefined''
                        | Some v \<Rightarrow> v)
      in if retryAfter = NaN then None
         else Some (multiply retryAfter 1000))"

subsection \<open>The interceptors\<close>

text \<open>The request interceptor: \<^verbatim>\<open>config[attemptIndex] = (config[attemptIndex] ?? -1) + 1\<close>.\<close>

definition onRequest :: "axiosRequestConfig \<Rightarrow> axiosRequestConfig" where
  "onRequest config =
     config\<lparr>attemptIndex :=
       Some ((case attemptIndex config of None \<Rightarrow> - 1 | Some i \<Rightarrow> i) + 1)\<rparr>"

text \<open>
  The response interceptor's error handler either rejects with the error it was given or
  schedules another attempt of the same configuration after a delay in milliseconds.
\<close>

datatype decision =
    Reject axiosError
  | Reattempt jsNumber axiosRequestConfig

text \<open>The line \<^verbatim>\<open>const delay = parseRetryAfterHeader(error.response) ?? retryDelay\<close>.\<close>

definition delayFor :: "response \<Rightarrow> jsNumber" where
  "delayFor r = (case parseRetryAfterHeader r of Some d \<Rightarrow> d | None \<Rightarrow> Num retryDelay)"

definition onRejected :: "axiosError \<Rightarrow> decision" where
  "onRejected error =
     (if \<not> checkError error then Reject error
      else
        let config = errorConfig error in
        if attemptIndex config = Some (attemptLimit - 1) then Reject error
        else
          (case errorResponse error of
             None \<Rightarrow> Reject error
           | Some r \<Rightarrow>
               if status r div 100 \<noteq> 5 then Reject error
               else Reattempt (delayFor r) config))"

subsection \<open>One logical request\<close>

text \<open>
  What happens to one attempt once it has left the request interceptor: the server
  answers, or no response is obtained, or something other than Axios throws. Axios
  resolves a response whose status is 2\<times>\<times> and rejects every other one with an Axios
  error that carries the response and the configuration sent.
\<close>

datatype outcome =
    Responds response
  | NoResponse string
  | Throws string

definition axiosFailure ::
  "axiosRequestConfig \<Rightarrow> response option \<Rightarrow> string \<Rightarrow> axiosError"
where
  "axiosFailure config r m =
     \<lparr>isAxiosError = True, errorConfig = config, errorResponse = r, message = Some m\<rparr>"

definition settle :: "axiosRequestConfig \<Rightarrow> outcome \<Rightarrow> axiosError + response" where
  "settle config out =
     (case out of
        Responds r \<Rightarrow>
          if 200 \<le> status r \<and> status r < 300 then Inr r
          else Inl (axiosFailure config (Some r) ''Request failed'')
      | NoResponse m \<Rightarrow> Inl (axiosFailure config None m)
      | Throws m \<Rightarrow>
          Inl \<lparr>isAxiosError = False, errorConfig = config,
                errorResponse = None, message = Some m\<rparr>)"

text \<open>
  The observable steps of a logical request: an attempt leaves the request interceptor,
  an attempt's error reaches the response interceptor, a timer of so many milliseconds
  runs before the next attempt.
\<close>

datatype transportEvent =
    Sent axiosRequestConfig
  | Failed axiosError
  | Waited jsNumber

text \<open>
  \<^verbatim>\<open>axiosInstance.request(config)\<close> on the enhanced instance, run against the outcomes of
  the successive attempts. The result is the events in order and how the promise
  settles; \<open>None\<close> when another attempt was scheduled and the list of outcomes says
  nothing about it.
\<close>

fun request ::
  "axiosRequestConfig \<Rightarrow> outcome list \<Rightarrow> transportEvent list \<times> (axiosError + response) option"
where
  "request config [] = ([], None)"
| "request config (out # outs) =
     (let sent = onRequest config in
      case settle sent out of
        Inr r \<Rightarrow> ([Sent sent], Some (Inr r))
      | Inl error \<Rightarrow>
          (case onRejected error of
             Reject e \<Rightarrow> ([Sent sent, Failed error], Some (Inl e))
           | Reattempt delay again \<Rightarrow>
               (case request again outs of
                  (events, result) \<Rightarrow>
                    (Sent sent # Failed error # Waited delay # events, result))))"

fun sentConfigs :: "transportEvent list \<Rightarrow> axiosRequestConfig list" where
  "sentConfigs [] = []"
| "sentConfigs (Sent c # es) = c # sentConfigs es"
| "sentConfigs (e # es) = sentConfigs es"


definition baseConfig :: "axiosRequestConfig option \<Rightarrow> axiosRequestConfig" where
  "baseConfig config =
     (case config of
        None \<Rightarrow> \<lparr>verb = GET, url = [], requestHeaders = [], payload = JUndefined,
                  attemptIndex = None\<rparr>
      | Some c \<Rightarrow> c)"



section \<open>NetworkClient\<close>

text \<open>
  What a method of the client throws (how its promise rejects). \<open>ApiErrorFromResponse\<close>
  stands for \<^verbatim>\<open>ApiError.createFromResponse(response)\<close>; \<open>TypeError\<close> is the error the
  JavaScript engine raises when a property of \<^verbatim>\<open>undefined\<close> or \<^verbatim>\<open>null\<close> is read or
  such a value is converted to an object.
\<close>

datatype thrown =
    ApiError string
  | ApiErrorFromResponse response
  | TypeError

type_synonym query = "(string \<times> jsValue) list"

text \<open>
  The client's collaborators: its Axios instance (verb, URL and request body to settled
  promise) and the imported function \<^verbatim>\<open>stringifyQuery\<close>.
\<close>

record networkClient =
  axiosInstance :: "httpVerb \<Rightarrow> string \<Rightarrow> jsValue \<Rightarrow> axiosError + response"
  stringifyQuery :: "query \<Rightarrow> string"

definition throwApiError :: "axiosError \<Rightarrow> thrown" where
  "throwApiError cause =
     (case errorResponse cause of
        Some r \<Rightarrow> ApiErrorFromResponse r
      | None \<Rightarrow>
          ApiError (case message cause of
                      Some m \<Rightarrow> m
                    | None \<Rightarrow> ''An unknown error has occurred''))"

definition NetworkClient_post ::
  "networkClient \<Rightarrow> string \<Rightarrow> jsValue \<Rightarrow> query \<Rightarrow> thrown + jsValue"
where
  "NetworkClient_post this relativePath body q =
     (case axiosInstance this POST (relativePath @ stringifyQuery this q) body of
        Inl cause \<Rightarrow> Inl (throwApiError cause)
      | Inr response \<Rightarrow>
          if status response = 204 then Inr (JBool True) else Inr (data response))"

definition NetworkClient_get :: "networkClient \<Rightarrow> string \<Rightarrow> query \<Rightarrow> thrown + jsValue" where
  "NetworkClient_get this relativePath q =
     (case axiosInstance this GET (relativePath @ stringifyQuery this q) JUndefined of
        Inl cause \<Rightarrow> Inl (throwApiError cause)
      | Inr response \<Rightarrow> Inr (data response))"

definition NetworkClient_patch :: "networkClient \<Rightarrow> string \<Rightarrow> jsValue \<Rightarrow> thrown + jsValue" where
  "NetworkClient_patch this relativePath body =
     (case axiosInstance this PATCH relativePath body of
        Inl cause \<Rightarrow> Inl (throwApiError cause)
      | Inr response \<Rightarrow> Inr (data response))"

definition NetworkClient_delete :: "networkClient \<Rightarrow> string \<Rightarrow> jsValue \<Rightarrow> thrown + jsValue" where
  "NetworkClient_delete this relativePath context =
     (case axiosInstance this DELETE relativePath context of
        Inl cause \<Rightarrow> Inl (throwApiError cause)
      | Inr response \<Rightarrow>
          if status response = 204 then Inr (JBool True) else Inr (data response))"

subsection \<open>list\<close>

text \<open>
  Reading a property of a value that is neither \<^verbatim>\<open>undefined\<close> nor \<^verbatim>\<open>null\<close>. Only
  objects carry the property names the client reads (\<^verbatim>\<open>_embedded\<close>, \<^verbatim>\<open>_links\<close>,
  \<^verbatim>\<open>count\<close> and the resource names); on any other value such a name is undefined.
\<close>

fun getProperty :: "jsValue \<Rightarrow> string \<Rightarrow> jsValue" where
  "getProperty (JObj props) k = (case map_of props k of Some v \<Rightarrow> v | None \<Rightarrow> JUndefined)"
| "getProperty v k = JUndefined"

definition nullish :: "jsValue \<Rightarrow> bool" where
  "nullish v = (v = JUndefined \<or> v = JNull)"

text \<open>The result of \<^verbatim>\<open>Object.assign(embedded[type], { links, count })\<close>.\<close>

record listResult =
  target :: jsValue
  links :: jsValue
  count :: jsValue

text \<open>
  Destructuring \<^verbatim>\<open>response.data\<close> throws only when it is \<^verbatim>\<open>undefined\<close> or \<^verbatim>\<open>null\<close>;
  that alone is inside the \<^verbatim>\<open>try\<close> block. \<^verbatim>\<open>embedded[type]\<close> and \<^verbatim>\<open>Object.assign\<close>
  run after it.
\<close>

definition NetworkClient_list ::
  "networkClient \<Rightarrow> string \<Rightarrow> string \<Rightarrow> query \<Rightarrow> thrown + listResult"
where
  "NetworkClient_list this relativePath type q =
     (case axiosInstance this GET (relativePath @ stringifyQuery this q) JUndefined of
        Inl cause \<Rightarrow> Inl (throwApiError cause)
      | Inr response \<Rightarrow>
          if nullish (data response)
          then Inl (ApiError ''Received unexpected response from the server'')
          else
            let embedded = getProperty (data response) ''_embedded'';
                lnks = getProperty (data response) ''_links'';
                cnt = getProperty (data response) ''count''
            in if nullish embedded then Inl TypeError
               else
                 let items = getProperty embedded type
                 in if nullish items then Inl TypeError
                    else Inr \<lparr>target = items, links = lnks, count = cnt\<rparr>)"

subsection \<open>iterate\<close>

definition iteratorLowWaterMark :: real where
  "iteratorLowWaterMark = 5.5"

text \<open>
  A page as \<^verbatim>\<open>list\<close> is declared to return it: an array of items with the links.
  An array slot holding \<^verbatim>\<open>null\<close> or \<^verbatim>\<open>undefined\<close> is \<open>None\<close>; \<open>nextLink\<close> is
  \<^verbatim>\<open>links.next.href\<close>, \<open>None\<close> when \<^verbatim>\<open>links.next\<close> is null.
\<close>

record 'r page =
  pageItems :: "'r option list"
  nextLink :: "string option"

text \<open>The arguments of one call of \<^verbatim>\<open>networkClient.list\<close>; the query may be left out.\<close>

datatype listCall = ListCall string string "query option"

fun typeArgument :: "listCall \<Rightarrow> string" where
  "typeArgument (ListCall relativePath type q) = type"

text \<open>
  The client handed to \<^verbatim>\<open>iterate\<close>: what its \<^verbatim>\<open>list\<close> promise settles to, for the
  \<open>n\<close>-th call made (counting from 0) and its arguments.
\<close>

type_synonym 'r pagedClient = "nat \<Rightarrow> listCall \<Rightarrow> thrown + 'r page"

datatype 'r pageEvent =
    Issued listCall
  | Settled listCall
  | Yielded 'r

fun issuedCalls :: "'r pageEvent list \<Rightarrow> listCall list" where
  "issuedCalls [] = []"
| "issuedCalls (Issued c # es) = c # issuedCalls es"
| "issuedCalls (e # es) = issuedCalls es"

text \<open>A pending promise: the call that was made and what it will settle to.\<close>

type_synonym 'r pending = "listCall \<times> (thrown + 'r page)"

text \<open>
  The async generator between two calls of the consumer: not yet started (holding
  \<^verbatim>\<open>firstPageArguments\<close>), suspended at \<^verbatim>\<open>yield item\<close> (holding \<^verbatim>\<open>firstPageArguments\<close>,
  \<^verbatim>\<open>currentPage\<close> after the shift, and \<^verbatim>\<open>nextPage\<close>), or completed.
\<close>

datatype 'r generator =
    Fresh listCall
  | AtYield listCall "'r page" "'r pending option"
  | Completed

datatype 'r iteratorResult =
    Value 'r
  | Done
  | Rejected thrown

text \<open>
  The inner loop from its top, and what follows it. \<^verbatim>\<open>shift\<close> removes the first slot;
  the loop is left when the array was empty or the slot held null or undefined.
\<close>

function pull ::
  "listCall \<Rightarrow> 'r page \<Rightarrow> 'r pending option \<Rightarrow> 'r pageEvent list \<Rightarrow>
   'r iteratorResult \<times> 'r generator \<times> 'r pageEvent list"
where
  "pull args currentPage nextPage journal =
     (case (case pageItems currentPage of
              [] \<Rightarrow> (None, currentPage)
            | slot # remaining \<Rightarrow> (slot, currentPage\<lparr>pageItems := remaining\<rparr>)) of
        (Some item, shifted) \<Rightarrow>
          (Value item, AtYield args shifted nextPage, journal @ [Yielded item])
      | (None, shifted) \<Rightarrow>
          (case nextPage of
             None \<Rightarrow> (Done, Completed, journal)
           | Some (call, settled) \<Rightarrow>
               (case settled of
                  Inl e \<Rightarrow> (Rejected e, Completed, journal @ [Settled call])
                | Inr p \<Rightarrow> pull args p None (journal @ [Settled call]))))"
  by pat_completeness auto
termination
  by (relation "measure (\<lambda>(args, currentPage, nextPage, journal).
         case nextPage of None \<Rightarrow> 0 | Some x \<Rightarrow> Suc 0)") auto

declare pull.simps [simp del]

text \<open>One call of \<^verbatim>\<open>next()\<close> on the generator.\<close>

definition generatorNext ::
  "'r pagedClient \<Rightarrow> 'r generator \<Rightarrow> 'r pageEvent list \<Rightarrow>
   'r iteratorResult \<times> 'r generator \<times> 'r pageEvent list"
where
  "generatorNext client gen journal =
     (case gen of
        Fresh args \<Rightarrow>
          (case client (length (issuedCalls journal)) args of
             Inl e \<Rightarrow> (Rejected e, Completed, journal @ [Issued args, Settled args])
           | Inr p \<Rightarrow> pull args p None (journal @ [Issued args, Settled args]))
      | AtYield args currentPage nextPage \<Rightarrow>
          (case nextLink currentPage of
             Some href \<Rightarrow>
               if nextPage = None \<and> real (length (pageItems currentPage)) < iteratorLowWaterMark
               then
                 let call = ListCall href (typeArgument args) None
                 in pull args currentPage
                      (Some (call, client (length (issuedCalls journal)) call))
                      (journal @ [Issued call])
               else pull args currentPage nextPage journal
           | None \<Rightarrow> pull args currentPage nextPage journal)
      | Completed \<Rightarrow> (Done, Completed, journal))"

text \<open>
  \<^verbatim>\<open>return()\<close>, which \<^verbatim>\<open>for await\<close> calls when its body breaks: the generator has no
  \<^verbatim>\<open>finally\<close> block, so it completes without running any of its code.
\<close>

definition generatorReturn ::
  "'r generator \<Rightarrow> 'r pageEvent list \<Rightarrow> 'r generator \<times> 'r pageEvent list"
where
  "generatorReturn gen journal = (Completed, journal)"

datatype consumerStep = Next | Break

fun consume ::
  "'r pagedClient \<Rightarrow> consumerStep list \<Rightarrow> 'r generator \<Rightarrow> 'r pageEvent list \<Rightarrow>
   'r generator \<times> 'r pageEvent list"
where
  "consume client [] gen journal = (gen, journal)"
| "consume client (Next # steps) gen journal =
     (case generatorNext client gen journal of
        (result, gen', journal') \<Rightarrow> consume client steps gen' journal')"
| "consume client (Break # steps) gen journal =
     (case generatorReturn gen journal of
        (gen', journal') \<Rightarrow> consume client steps gen' journal')"

definition iterate :: "listCall \<Rightarrow> 'r generator \<times> 'r pageEvent list" where
  "iterate firstPageArguments = (Fresh firstPageArguments, [])"

text \<open>Page requests made and not yet awaited, after a journal and at its peak.\<close>

fun inFlight :: "nat \<Rightarrow> 'r pageEvent list \<Rightarrow> nat" where
  "inFlight n [] = n"
| "inFlight n (Issued c # es) = inFlight (Suc n) es"
| "inFlight n (Settled c # es) = inFlight (n - 1) es"
| "inFlight n (Yielded x # es) = inFlight n es"

fun peakInFlight :: "nat \<Rightarrow> 'r pageEvent list \<Rightarrow> nat" where
  "peakInFlight n [] = n"
| "peakInFlight n (Issued c # es) = max n (peakInFlight (Suc n) es)"
| "peakInFlight n (Settled c # es) = max n (peakInFlight (n - 1) es)"
| "peakInFlight n (Yielded x # es) = peakInFlight n es"

section \<open>Identifier checks\<close>

definition prefixes :: "(string \<times> string) list" where
  "prefixes =
     [(''capture'', ''cpt_''),
      (''chargeback'', ''chb_''),
      (''customer'', ''cst_''),
      (''mandate'', ''mdt_''),
      (''order'', ''ord_''),
      (''orderline'', ''odl_''),
      (''organization'', ''org_''),
      (''payment'', ''tr_''),
      (''payment-link'', ''pl_''),
      (''profile'', ''pfl_''),
      (''refund'', ''re_''),
      (''shipment'', ''shp_''),
      (''subscription'', ''sub_'')]"

definition startsWith :: "string \<Rightarrow> string \<Rightarrow> bool" where
  "startsWith s searchString = (take (length searchString) s = searchString)"

text \<open>
  \<^verbatim>\<open>prefixes.get(resource)\<close> is \<^verbatim>\<open>undefined\<close> for a resource that is not a key of
  the map, and \<^verbatim>\<open>startsWith\<close> converts its argument to a string: \<^verbatim>\<open>"undefined"\<close>.
  \<open>None\<close> is a value that is not a string.
\<close>

definition checkId :: "string option \<Rightarrow> string \<Rightarrow> bool" where
  "checkId val resource =
     (case val of
        None \<Rightarrow> False
      | Some v \<Rightarrow>
          startsWith v (case map_of prefixes resource of
                          Some p \<Rightarrow> p
                        | None \<Rightarrow> ''undefined''))"

text \<open>
  \<^verbatim>\<open>PermissionsBinder.get\<close>. \<open>reneged\<close> is the result of \<^verbatim>\<open>renege\<close>, true when the call
  carried a callback and \<^verbatim>\<open>renege\<close> took it over (what it does with it is not part of
  this function). The result lists the paths this invocation itself requests from the
  network client, then the outcome: \<open>Inr None\<close> when the method returns nothing,
  \<open>Inr (Some p)\<close> when it returns the promise \<open>p\<close> of \<^verbatim>\<open>networkClient.get\<close>.
\<close>

definition pathSegment :: string where
  "pathSegment = ''permissions''"

definition PermissionsBinder_get ::
  "bool \<Rightarrow> (string \<Rightarrow> 'p) \<Rightarrow> string \<Rightarrow> string list \<times> (thrown + 'p option)"
where
  "PermissionsBinder_get reneged networkClientGet id' =
     (if reneged then ([], Inr None)
      else if \<not> checkId (Some id') ''permission''
      then ([], Inl (ApiError ''The permission id is invalid''))
      else
        let path = pathSegment @ ''/'' @ id'
        in ([path], Inr (Some (networkClientGet path))))"

section \<open>The demand planner\<close>

text \<open>
  Modelled from the spec: the iterator class with its combinators and the computation
  of the first page's size are not among the source files; only the test of the sizes
  is. The definitions follow sections 3 and 4.1 of the specification.
\<close>

datatype demand = Bounded nat | Unbounded

text \<open>
  Modelled from the spec: the arithmetic of demands in section 3 (not among the source
  files). Adding to an unbounded demand leaves it unbounded; the minimum with an
  unbounded demand is the other demand.
\<close>

fun demandPlus :: "demand \<Rightarrow> demand \<Rightarrow> demand" where
  "demandPlus (Bounded a) (Bounded b) = Bounded (a + b)"
| "demandPlus a b = Unbounded"

fun demandMin :: "demand \<Rightarrow> demand \<Rightarrow> demand" where
  "demandMin (Bounded a) (Bounded b) = Bounded (min a b)"
| "demandMin Unbounded b = b"
| "demandMin a Unbounded = a"

text \<open>
  Modelled from the spec: the chain node of section 3 (the iterator class is not among
  the source files). A node holds its upstream node; the most recently applied
  combinator is outermost.
\<close>

datatype 'a chainNode =
    Source
  | Take nat "'a chainNode"
  | Drop nat "'a chainNode"
  | Filter "'a \<Rightarrow> bool" "'a chainNode"
  | Map "'a \<Rightarrow> 'a" "'a chainNode"

text \<open>
  Modelled from the spec: the two constants of the remote API and the translation of a
  demand into the size of the first page (section 4.1; not among the source files).
\<close>

definition DEFAULT_PAGE_SIZE :: nat where
  "DEFAULT_PAGE_SIZE = 128"

definition MAX_PAGE_SIZE :: nat where
  "MAX_PAGE_SIZE = 250"

text \<open>
  Modelled from the spec: the backward fold of section 4.1 (the computation is not
  among the source files), from the outermost node to the source.
\<close>

fun plan :: "demand \<Rightarrow> 'a chainNode \<Rightarrow> demand" where
  "plan downReq Source = downReq"
| "plan downReq (Take n upstream) = plan (demandMin (Bounded n) downReq) upstream"
| "plan downReq (Drop n upstream) = plan (demandPlus downReq (Bounded n)) upstream"
| "plan downReq (Filter pred upstream) = plan Unbounded upstream"
| "plan downReq (Map f upstream) = plan downReq upstream"

definition totalDemand :: "'a chainNode \<Rightarrow> demand" where
  "totalDemand chain = plan Unbounded chain"

definition firstPageSize :: "'a chainNode \<Rightarrow> nat" where
  "firstPageSize chain =
     (case totalDemand chain of
        Bounded n \<Rightarrow> min n MAX_PAGE_SIZE
      | Unbounded \<Rightarrow> DEFAULT_PAGE_SIZE)"

text \<open>
  Modelled from the spec: the combinator calls of section 4.2 (the iterator class is
  not among the source files); each wraps the sequence it is applied to.
\<close>

definition take' :: "nat \<Rightarrow> 'a chainNode \<Rightarrow> 'a chainNode" where
  "take' n chain = Take n chain"

definition drop' :: "nat \<Rightarrow> 'a chainNode \<Rightarrow> 'a chainNode" where
  "drop' n chain = Drop n chain"

definition filter' :: "('a \<Rightarrow> bool) \<Rightarrow> 'a chainNode \<Rightarrow> 'a chainNode" where
  "filter' pred chain = Filter pred chain"

definition map' :: "('a \<Rightarrow> 'a) \<Rightarrow> 'a chainNode \<Rightarrow> 'a chainNode" where
  "map' f chain = Map f chain"

section \<open>Notions used in the statements\<close>

subsection \<open>Retry-After values\<close>

text \<open>
  A plain integer is a non-empty string of decimal digits; its value is positional.
  A string starts a number when, after leading white space and at most one sign, a
  decimal digit follows; every HTTP-date starts with the name of a day and so does not.
\<close>

definition plainInteger :: "string \<Rightarrow> bool" where
  "plainInteger s = (s \<noteq> [] \<and> list_all isDigit s)"

fun decimalValue :: "string \<Rightarrow> int" where
  "decimalValue [] = 0"
| "decimalValue (c # cs) = digitValue c * 10 ^ length cs + decimalValue cs"

definition startsNumber :: "string \<Rightarrow> bool" where
  "startsNumber s =
     (case dropWhile isWhiteSpace s of
        [] \<Rightarrow> False
      | c # cs \<Rightarrow>
          if c = CHR ''+'' \<or> c = CHR ''-''
          then (case cs of [] \<Rightarrow> False | c' # rest \<Rightarrow> isDigit c')
          else isDigit c)"

text \<open>The integer such a string starts with: the sign and the longest run of digits.\<close>

definition leadingInteger :: "string \<Rightarrow> int" where
  "leadingInteger s =
     (case dropWhile isWhiteSpace s of
        [] \<Rightarrow> 0
      | c # cs \<Rightarrow>
          if c = CHR ''-'' then - decimalValue (takeWhile isDigit cs)
          else if c = CHR ''+'' then decimalValue (takeWhile isDigit cs)
          else decimalValue (takeWhile isDigit (c # cs)))"

subsection \<open>Invariants\<close>

text \<open>The number of promises a suspended generator holds.\<close>

fun pendingCount :: "'r generator \<Rightarrow> nat" where
  "pendingCount (AtYield args currentPage (Some p)) = 1"
| "pendingCount gen = 0"




subsection \<open>Concrete inputs\<close>

definition plainConfig :: axiosRequestConfig where
  "plainConfig = baseConfig None"

definition serverError :: response where
  "serverError = \<lparr>status = 503, headers = [], data = JNull\<rparr>"

definition serverErrorRetryAfter :: response where
  "serverErrorRetryAfter = \<lparr>status = 503, headers = [(''retry-after'', ''5'')], data = JNull\<rparr>"

definition serverErrorHttpDate :: response where
  "serverErrorHttpDate =
     \<lparr>status = 503, headers = [(''retry-after'', ''Wed, 21 Oct 2015 07:28:00 GMT'')],
      data = JNull\<rparr>"

definition serverErrorTrailingText :: response where
  "serverErrorTrailingText =
     \<lparr>status = 503, headers = [(''retry-after'', ''12abc'')], data = JNull\<rparr>"

definition serverErrorIsoDate :: response where
  "serverErrorIsoDate =
     \<lparr>status = 503, headers = [(''retry-after'', ''2015-10-21T07:28:00Z'')],
      data = JNull\<rparr>"

definition created :: response where
  "created = \<lparr>status = 201, headers = [], data = JObj [(''resource'', JStr ''payment'')]\<rparr>"

definition noContent :: response where
  "noContent = \<lparr>status = 204, headers = [], data = JStr []\<rparr>"

definition noContentClient :: networkClient where
  "noContentClient = \<lparr>axiosInstance = (\<lambda>v u d. Inr noContent), stringifyQuery = (\<lambda>q. [])\<rparr>"

definition emptyObjectClient :: networkClient where
  "emptyObjectClient =
     \<lparr>axiosInstance = (\<lambda>v u d. Inr \<lparr>status = 200, headers = [], data = JObj []\<rparr>),
      stringifyQuery = (\<lambda>q. [])\<rparr>"

definition nullBodyClient :: networkClient where
  "nullBodyClient =
     \<lparr>axiosInstance = (\<lambda>v u d. Inr \<lparr>status = 200, headers = [], data = JNull\<rparr>),
      stringifyQuery = (\<lambda>q. [])\<rparr>"


definition serverErrorBeyondExact :: response where
  "serverErrorBeyondExact =
     \<lparr>status = 503, headers = [(''retry-after'', ''9007199254740993'')], data = JNull\<rparr>"

definition timedOut :: outcome where
  "timedOut = NoResponse ''timeout of 1000ms exceeded''"

definition firstCall :: listCall where
  "firstCall = ListCall ''payments'' ''payments'' (Some [(''limit'', JNum 2)])"

definition shortPage :: "nat page" where
  "shortPage = \<lparr>pageItems = [Some 1, Some 2], nextLink = Some ''payments?from=tr_3&limit=2''\<rparr>"

definition shortPageClient :: "nat pagedClient" where
  "shortPageClient = (\<lambda>n call. Inr shortPage)"

section \<open>Properties of the retrying transport\<close>

lemma status_5xx_not_2xx:
  "status r div 100 = 5 \<Longrightarrow> \<not> (200 \<le> status r \<and> status r < 300)"
  by auto

lemma onRejected_cases:
  "onRejected error = Reject error \<or>
   (\<exists>r. errorResponse error = Some r \<and>
        onRejected error = Reattempt (delayFor r) (errorConfig error))"
  by (auto simp: onRejected_def Let_def split: option.splits)

lemma settle_config: "settle c out = Inl e \<Longrightarrow> errorConfig e = c"
  by (auto simp: settle_def axiosFailure_def split: outcome.splits if_splits)

lemma settle_axios: "settle c out = Inl e \<Longrightarrow> isAxiosError e \<or> errorResponse e = None"
  by (auto simp: settle_def axiosFailure_def split: outcome.splits if_splits)

text \<open>What the interceptor's decision means for the run of a logical request.\<close>

lemma reattempt_is_sent:
  "settle (onRequest config) out = Inl e \<Longrightarrow> onRejected e = Reattempt d again \<Longrightarrow>
   fst (request config (out # outs)) =
     Sent (onRequest config) # Failed e # Waited d # fst (request again outs)"
  by (simp add: Let_def split: prod.splits)

lemma reject_ends_request:
  "settle (onRequest config) out = Inl e \<Longrightarrow> onRejected e = Reject e' \<Longrightarrow>
   request config (out # outs) = ([Sent (onRequest config), Failed e], Some (Inl e'))"
  by (simp add: Let_def)

text \<open>
  The run of a logical request by position. After \<open>k\<close> attempts the configuration
  carries the index \<open>k - 1\<close> (none for \<open>k = 0\<close>); the attempt at position \<open>i\<close> of what
  follows is sent with index \<open>k + i\<close>, and its outcome decides whether the run goes on.
\<close>

lemma request_sends_first: "sentConfigs (fst (request config (out # outs))) \<noteq> []"
  by (auto simp: Let_def split: sum.splits decision.splits prod.splits)

lemma onRequest_index:
  "attemptIndex config = (if k = 0 then None else Some (int k - 1)) \<Longrightarrow>
   onRequest config = config\<lparr>attemptIndex := Some (int k)\<rparr>"
  by (simp add: onRequest_def)

lemma onRejected_reattempt_iff:
  assumes "isAxiosError error \<or> errorResponse error = None"
      and "attemptIndex (errorConfig error) = Some (int n)" and "n < 3"
  shows "(\<exists>d c. onRejected error = Reattempt d c) =
           ((\<exists>r. errorResponse error = Some r \<and> status r div 100 = 5) \<and>
            int n + 1 < attemptLimit)"
    and "(onRejected error = Reject error) =
           (\<not> ((\<exists>r. errorResponse error = Some r \<and> status r div 100 = 5) \<and>
               int n + 1 < attemptLimit))"
  using assms
  by (cases "errorResponse error";
      auto simp: onRejected_def checkError_def Let_def attemptLimit_def)+

lemma run_by_position:
  "attemptIndex config = (if k = 0 then None else Some (int k - 1)) \<Longrightarrow> k < 3 \<Longrightarrow>
   request config outs = (events, result) \<Longrightarrow> i < length (sentConfigs events) \<Longrightarrow>
   sentConfigs events ! i = config\<lparr>attemptIndex := Some (int (k + i))\<rparr> \<and>
   k + i < 3 \<and> i < length outs \<and>
   (\<forall>r. settle (sentConfigs events ! i) (outs ! i) = Inr r \<longrightarrow>
        length (sentConfigs events) = Suc i \<and> result = Some (Inr r)) \<and>
   (\<forall>error. settle (sentConfigs events ! i) (outs ! i) = Inl error \<longrightarrow>
        (if (\<exists>r. errorResponse error = Some r \<and> status r div 100 = 5) \<and>
            int (k + i) + 1 < attemptLimit
         then if Suc i < length outs then Suc i < length (sentConfigs events)
              else length (sentConfigs events) = Suc i \<and> result = None
         else length (sentConfigs events) = Suc i \<and> result = Some (Inl error)))"
proof (induction outs arbitrary: config k events result i)
  case Nil
  then show ?case by simp
next
  case (Cons out outs)
  let ?sent = "config\<lparr>attemptIndex := Some (int k)\<rparr>"
  have sent: "onRequest config = ?sent" using Cons.prems(1) by (rule onRequest_index)
  show ?case
  proof (cases "settle ?sent out")
    case (Inr r)
    with Cons.prems(3) sent have ev: "events = [Sent ?sent]" and res: "result = Some (Inr r)"
      by (simp_all add: Let_def)
    with Cons.prems(4) have i: "i = 0" by simp
    show ?thesis using ev res i Inr Cons.prems(2) by simp
  next
    case (Inl err)
    have cfg: "errorConfig err = ?sent" using Inl by (rule settle_config)
    have ax: "isAxiosError err \<or> errorResponse err = None" using Inl by (rule settle_axios)
    have idx: "attemptIndex (errorConfig err) = Some (int k)" using cfg by simp
    note iff = onRejected_reattempt_iff [OF ax idx Cons.prems(2)]
    show ?thesis
    proof (cases "onRejected err")
      case (Reject x)
      with onRejected_cases [of err] have x: "x = err" by auto
      with Reject have rej: "onRejected err = Reject err" by simp
      from Cons.prems(3) sent Inl Reject x
      have ev: "events = [Sent ?sent, Failed err]" and res: "result = Some (Inl err)"
        by (simp_all add: Let_def)
      with Cons.prems(4) have i: "i = 0" by simp
      show ?thesis using ev res i Inl Cons.prems(2) iff(2) rej by simp
    next
      case (Reattempt d again)
      with onRejected_cases [of err] cfg have again: "again = ?sent" by auto
      from Reattempt iff(1)
      have retry: "(\<exists>r. errorResponse err = Some r \<and> status r div 100 = 5) \<and>
                   int k + 1 < attemptLimit"
        by blast
      then have k1: "Suc k < 3" by (simp add: attemptLimit_def)
      obtain events' result' where run: "request ?sent outs = (events', result')"
        by (cases "request ?sent outs") auto
      from Cons.prems(3) sent Inl Reattempt again run
      have ev: "events = Sent ?sent # Failed err # Waited d # events'"
        and res: "result = result'"
        by (simp_all add: Let_def)
      have sc: "sentConfigs events = ?sent # sentConfigs events'" using ev by simp
      have next_idx: "attemptIndex ?sent = (if Suc k = 0 then None else Some (int (Suc k) - 1))"
        by simp
      show ?thesis
      proof (cases i)
        case 0
        have more: "outs \<noteq> [] \<Longrightarrow> sentConfigs events' \<noteq> []"
          using run request_sends_first [of ?sent "hd outs" "tl outs"] by (cases outs) auto
        have none: "outs = [] \<Longrightarrow> events' = [] \<and> result' = None"
          using run by simp
        show ?thesis
          using 0 sc res Inl retry Cons.prems(2) more none
          by (cases outs) (auto simp: attemptLimit_def)
      next
        case (Suc j)
        with Cons.prems(4) sc have j: "j < length (sentConfigs events')" by simp
        from Cons.IH [OF next_idx k1 run j]
        show ?thesis using Suc sc res by simp
      qed
    qed
  qed
qed


subsection \<open>Base64\<close>















subsection \<open>Parsing the header\<close>

lemma toNumber_exact: "\<bar>n\<bar> \<le> 2 ^ 53 \<Longrightarrow> toNumber n = Num n"
  by (simp add: toNumber_def)

lemma toNumber_not_NaN: "toNumber n \<noteq> NaN"
  by (simp add: toNumber_def Let_def)

lemma foldl_digits:
  "foldl (\<lambda>acc c. 10 * acc + digitValue c) acc cs = acc * 10 ^ length cs + decimalValue cs"
  by (induction cs arbitrary: acc) (simp_all add: algebra_simps)

lemma digit_not_space: "isDigit c \<Longrightarrow> \<not> isWhiteSpace c"
  by (auto simp: isDigit_def isWhiteSpace_def)

lemma digit_not_sign: "isDigit c \<Longrightarrow> c \<noteq> CHR ''+'' \<and> c \<noteq> CHR ''-''"
  by (auto simp: isDigit_def)

lemma takeWhile_all: "list_all P xs \<Longrightarrow> takeWhile P xs = xs"
  by (induction xs) simp_all

lemma parseInt10_nonNumeric: "\<not> startsNumber s \<Longrightarrow> parseInt10 s = NaN"
proof -
  assume n: "\<not> startsNumber s"
  show ?thesis
  proof (cases "dropWhile isWhiteSpace s")
    case Nil
    show ?thesis unfolding parseInt10_def Let_def Nil by simp
  next
    case (Cons c cs)
    show ?thesis
    proof (cases "c = CHR ''+'' \<or> c = CHR ''-''")
      case True
      with n Cons have "cs = [] \<or> \<not> isDigit (hd cs)"
        by (auto simp: startsNumber_def split: list.splits)
      then have "takeWhile isDigit cs = []" by (cases cs) auto
      with True show ?thesis unfolding parseInt10_def Let_def Cons by auto
    next
      case False
      with n Cons have "\<not> isDigit c" by (simp add: startsNumber_def)
      with False show ?thesis unfolding parseInt10_def Let_def Cons by simp
    qed
  qed
qed

lemma parseInt10_leading: "startsNumber s \<Longrightarrow> parseInt10 s = toNumber (leadingInteger s)"
proof -
  assume n: "startsNumber s"
  then obtain c cs where Cons: "dropWhile isWhiteSpace s = c # cs"
    by (cases "dropWhile isWhiteSpace s") (simp_all add: startsNumber_def)
  show ?thesis
  proof (cases "c = CHR ''+'' \<or> c = CHR ''-''")
    case True
    with n Cons obtain c' rest where cs: "cs = c' # rest" and d: "isDigit c'"
      by (cases cs) (auto simp: startsNumber_def)
    then have "takeWhile isDigit cs \<noteq> []" by simp
    with True show ?thesis
      unfolding parseInt10_def leadingInteger_def Let_def Cons
      by (auto simp: foldl_digits)
  next
    case False
    with n Cons have "isDigit c" by (simp add: startsNumber_def)
    with False show ?thesis
      unfolding parseInt10_def leadingInteger_def Let_def Cons
      by (simp add: foldl_digits)
  qed
qed

lemma plain_starts_number: "plainInteger s \<Longrightarrow> startsNumber s"
proof -
  assume p: "plainInteger s"
  then obtain c cs where s: "s = c # cs" and c: "isDigit c"
    by (cases s) (auto simp: plainInteger_def)
  have d: "dropWhile isWhiteSpace s = c # cs" using s c by (simp add: digit_not_space)
  show ?thesis unfolding startsNumber_def d using digit_not_sign [OF c] c by simp
qed

lemma leadingInteger_plain: "plainInteger s \<Longrightarrow> leadingInteger s = decimalValue s"
proof -
  assume p: "plainInteger s"
  then obtain c cs where s: "s = c # cs" and c: "isDigit c" and cs: "list_all isDigit cs"
    by (cases s) (auto simp: plainInteger_def)
  have d: "dropWhile isWhiteSpace s = c # cs" using s c by (simp add: digit_not_space)
  show ?thesis
    unfolding leadingInteger_def d
    using digit_not_sign [OF c] c cs s by (simp add: takeWhile_all)
qed

lemma decimalValue_nonneg: "list_all isDigit s \<Longrightarrow> 0 \<le> decimalValue s"
  by (induction s) (auto simp: isDigit_def digitValue_def)

lemma parseInt10_undefined: "parseInt10 ''undefined'' = NaN"
  by (simp add: parseInt10_def isWhiteSpace_def isDigit_def)

lemma delayFor_leading:
  "map_of (headers r) ''retry-after'' = Some s \<Longrightarrow> startsNumber s \<Longrightarrow>
   delayFor r = multiply (toNumber (leadingInteger s)) 1000"
  by (simp add: delayFor_def parseRetryAfterHeader_def parseInt10_leading toNumber_not_NaN)

lemma multiply_exact:
  "1000 * \<bar>n\<bar> \<le> 2 ^ 53 \<Longrightarrow> multiply (toNumber n) 1000 = Num (1000 * n)"
proof -
  assume b: "1000 * \<bar>n\<bar> \<le> 2 ^ 53"
  then have "\<bar>n\<bar> \<le> 2 ^ 53" by linarith
  moreover have "\<bar>n * 1000\<bar> \<le> 2 ^ 53" using b by (simp add: abs_mult)
  ultimately show ?thesis by (simp add: multiply_def toNumber_exact mult.commute)
qed

lemma delayFor_leading_exact:
  "map_of (headers r) ''retry-after'' = Some s \<Longrightarrow> startsNumber s \<Longrightarrow>
   1000 * \<bar>leadingInteger s\<bar> \<le> 2 ^ 53 \<Longrightarrow> delayFor r = Num (1000 * leadingInteger s)"
  by (simp add: delayFor_leading multiply_exact)

lemma delayFor_plain:
  "map_of (headers r) ''retry-after'' = Some s \<Longrightarrow> plainInteger s \<Longrightarrow>
   1000 * decimalValue s \<le> 2 ^ 53 \<Longrightarrow> delayFor r = Num (1000 * decimalValue s)"
proof -
  assume h: "map_of (headers r) ''retry-after'' = Some s" and p: "plainInteger s"
    and b: "1000 * decimalValue s \<le> 2 ^ 53"
  have "0 \<le> decimalValue s" using p by (simp add: plainInteger_def decimalValue_nonneg)
  with b have "1000 * \<bar>leadingInteger s\<bar> \<le> 2 ^ 53"
    by (simp add: leadingInteger_plain [OF p])
  from delayFor_leading_exact [OF h plain_starts_number [OF p] this]
  show ?thesis by (simp add: leadingInteger_plain [OF p])
qed

lemma delayFor_nonNumeric:
  "map_of (headers r) ''retry-after'' = Some s \<Longrightarrow> \<not> startsNumber s \<Longrightarrow>
   delayFor r = Num retryDelay"
  by (simp add: delayFor_def parseRetryAfterHeader_def parseInt10_nonNumeric)

lemma delayFor_absent:
  "map_of (headers r) ''retry-after'' = None \<Longrightarrow> delayFor r = Num retryDelay"
  by (simp add: delayFor_def parseRetryAfterHeader_def parseInt10_undefined)

text \<open>Beyond \<open>2^53\<close> the number parsed is the nearest double, and so is the product.\<close>

lemma toNumber_beyond_exact: "toNumber 9007199254740993 = Num 9007199254740992"
  by code_simp

lemma toNumber_product_beyond_exact:
  "toNumber 9007199254740992000 = Num 9007199254740992000"
  by code_simp

lemma delayFor_beyond_exact: "delayFor serverErrorBeyondExact = Num 9007199254740992000"
proof -
  have "parseInt10 ''9007199254740993'' = toNumber 9007199254740993"
    by (simp add: parseInt10_def isWhiteSpace_def isDigit_def digitValue_def)
  then show ?thesis
    by (simp add: delayFor_def parseRetryAfterHeader_def serverErrorBeyondExact_def
          toNumber_beyond_exact multiply_def toNumber_product_beyond_exact)
qed

section \<open>Properties of the iterator\<close>

lemma issuedCalls_append: "issuedCalls (xs @ ys) = issuedCalls xs @ issuedCalls ys"
  by (induction xs rule: issuedCalls.induct) simp_all

lemma inFlight_append: "inFlight n (xs @ ys) = inFlight (inFlight n xs) ys"
  by (induction n xs rule: inFlight.induct) simp_all

lemma peakInFlight_append:
  "peakInFlight n (xs @ ys) = max (peakInFlight n xs) (peakInFlight (inFlight n xs) ys)"
proof (induction n xs rule: peakInFlight.induct)
  case (1 n)
  have "n \<le> peakInFlight n ys" by (induction n ys rule: peakInFlight.induct) auto
  then show ?case by simp
qed (simp_all add: max.assoc)

text \<open>The inner loop and the switch to the next page make no request.\<close>

lemma pull_issues_nothing:
  "pull args currentPage nextPage journal = (result, gen', journal') \<Longrightarrow>
   issuedCalls journal' = issuedCalls journal"
proof (induction args currentPage nextPage journal rule: pull.induct)
  case (1 args currentPage nextPage journal)
  show ?case
    using "1.prems" "1.IH"
    by (subst (asm) pull.simps)
       (auto simp: issuedCalls_append
             split: list.splits option.splits sum.splits prod.splits)
qed

lemma pull_in_flight:
  "pull args currentPage nextPage journal = (result, gen', journal') \<Longrightarrow>
   inFlight 0 journal = (case nextPage of None \<Rightarrow> 0 | Some p \<Rightarrow> 1) \<Longrightarrow>
   peakInFlight 0 journal \<le> 1 \<Longrightarrow>
   inFlight 0 journal' = pendingCount gen' \<and> peakInFlight 0 journal' \<le> 1"
proof (induction args currentPage nextPage journal rule: pull.induct)
  case (1 args currentPage nextPage journal)
  show ?case
    using "1.prems" "1.IH"
    by (subst (asm) pull.simps)
       (auto simp: inFlight_append peakInFlight_append
             split: list.splits option.splits sum.splits prod.splits)
qed

lemma generatorNext_in_flight:
  assumes "generatorNext client gen journal = (result, gen', journal')"
      and "inFlight 0 journal = pendingCount gen"
      and "peakInFlight 0 journal \<le> 1"
  shows "inFlight 0 journal' = pendingCount gen' \<and> peakInFlight 0 journal' \<le> 1"
proof (cases gen)
  case (Fresh args)
  show ?thesis
  proof (cases "client (length (issuedCalls journal)) args")
    case (Inl e)
    with assms Fresh show ?thesis
      by (auto simp: generatorNext_def inFlight_append peakInFlight_append)
  next
    case (Inr p)
    with assms(1) Fresh
    have a: "pull args p None (journal @ [Issued args, Settled args]) =
               (result, gen', journal')"
      by (simp add: generatorNext_def)
    have b: "inFlight 0 (journal @ [Issued args, Settled args]) =
               (case None :: 'a pending option of None \<Rightarrow> 0 | Some p \<Rightarrow> 1)"
      using assms(2) Fresh by (simp add: inFlight_append)
    have c: "peakInFlight 0 (journal @ [Issued args, Settled args]) \<le> 1"
      using assms(2,3) Fresh by (simp add: peakInFlight_append)
    show ?thesis by (rule pull_in_flight [OF a b c])
  qed
next
  case (AtYield args currentPage nextPage)
  let ?issue = "nextLink currentPage \<noteq> None \<and> nextPage = None \<and>
                real (length (pageItems currentPage)) < iteratorLowWaterMark"
  show ?thesis
  proof (cases ?issue)
    case True
    then obtain href where href: "nextLink currentPage = Some href" by auto
    let ?call = "ListCall href (typeArgument args) None"
    from assms(1) AtYield True href
    have a: "pull args currentPage
               (Some (?call, client (length (issuedCalls journal)) ?call))
               (journal @ [Issued ?call]) = (result, gen', journal')"
      by (simp add: generatorNext_def Let_def)
    have b: "inFlight 0 (journal @ [Issued ?call]) =
               (case Some (?call, client (length (issuedCalls journal)) ?call) of
                  None \<Rightarrow> 0 | Some p \<Rightarrow> 1)"
      using assms(2) AtYield True by (simp add: inFlight_append)
    have c: "peakInFlight 0 (journal @ [Issued ?call]) \<le> 1"
      using assms(2,3) AtYield True by (simp add: peakInFlight_append)
    show ?thesis by (rule pull_in_flight [OF a b c])
  next
    case False
    with assms(1) AtYield
    have p: "pull args currentPage nextPage journal = (result, gen', journal')"
      by (auto simp: generatorNext_def split: option.splits if_splits)
    have b: "inFlight 0 journal = (case nextPage of None \<Rightarrow> 0 | Some p \<Rightarrow> 1)"
      using assms(2) AtYield by (cases nextPage) simp_all
    show ?thesis by (rule pull_in_flight [OF p b assms(3)])
  qed
next
  case Completed
  with assms show ?thesis by (simp add: generatorNext_def)
qed

lemma consume_completed:
  "consume client steps Completed journal = (Completed, journal)"
proof (induction steps)
  case Nil
  show ?case by simp
next
  case (Cons a steps)
  then show ?case by (cases a) (simp_all add: generatorNext_def generatorReturn_def)
qed

lemma consume_peak:
  "consume client steps gen journal = (gen', journal') \<Longrightarrow>
   gen = Completed \<or> inFlight 0 journal = pendingCount gen \<Longrightarrow>
   peakInFlight 0 journal \<le> 1 \<Longrightarrow>
   peakInFlight 0 journal' \<le> 1"
proof (induction client steps gen journal rule: consume.induct)
  case (1 client gen journal)
  then show ?case by simp
next
  case (2 client steps gen journal)
  show ?case
  proof (cases "gen = Completed")
    case True
    with "2.prems"(1) consume_completed [of client "Next # steps" journal]
    have "journal' = journal" by simp
    with "2.prems"(3) show ?thesis by simp
  next
    case False
    with "2.prems"(2) have inv: "inFlight 0 journal = pendingCount gen" by simp
    obtain result g j where n: "generatorNext client gen journal = (result, g, j)"
      by (cases "generatorNext client gen journal") auto
    from generatorNext_in_flight [OF n inv "2.prems"(3)]
    have g: "g = Completed \<or> inFlight 0 j = pendingCount g" and pk: "peakInFlight 0 j \<le> 1"
      by simp_all
    from "2.prems"(1) n have c: "consume client steps g j = (gen', journal')" by simp
    show ?thesis
      by (rule "2.IH" [OF n [symmetric] refl c g pk])
  qed
next
  case (3 client steps gen journal)
  from "3.prems"(1) consume_completed [of client steps journal]
  have "journal' = journal" by (simp add: generatorReturn_def)
  with "3.prems"(3) show ?case by simp
qed

lemma generatorNext_issues:
  "generatorNext client gen journal = (result, gen', journal') \<Longrightarrow>
   issuedCalls journal' =
     issuedCalls journal @
       (case gen of
          Fresh args \<Rightarrow> [args]
        | AtYield args currentPage nextPage \<Rightarrow>
            (case nextLink currentPage of
               Some href \<Rightarrow>
                 if nextPage = None \<and>
                    real (length (pageItems currentPage)) < iteratorLowWaterMark
                 then [ListCall href (typeArgument args) None]
                 else []
             | None \<Rightarrow> [])
        | Completed \<Rightarrow> [])"
  by (auto simp: generatorNext_def Let_def issuedCalls_append
           split: generator.splits sum.splits option.splits if_splits
           dest!: pull_issues_nothing)

section \<open>The claims\<close>

subsection \<open>Size of the first page request\<close>

text \<open>
  Claim C1. With a default page size of 128 and a maximum of 250, the first request
  asks for 128 items for the bare iterator, 80 for \<open>take(80)\<close>, 128 for \<open>drop(10)\<close>,
  90 for \<open>drop(10).take(80)\<close>, 80 for \<open>take(80).drop(10)\<close>, 90 for
  \<open>drop(10).take(80).drop(10)\<close>, 80 for \<open>take(100).take(80)\<close> and \<open>take(80).take(100)\<close>,
  80 for \<open>take(80).filter(always true)\<close>, 128 for \<open>filter(always true).take(80)\<close>, 80
  for \<open>take(80).map(identity)\<close> and \<open>map(identity).take(80)\<close>, and 250 for \<open>take(300)\<close>
  and \<open>take(3218)\<close>. A chain \<open>x.f(a).g(b)\<close> is the term \<open>g' b (f' a x)\<close>.
\<close>

theorem first_page_size_table:
  "firstPageSize (Source :: 'a chainNode) = 128 \<and>
   firstPageSize (take' 80 (Source :: 'a chainNode)) = 80 \<and>
   firstPageSize (drop' 10 (Source :: 'a chainNode)) = 128 \<and>
   firstPageSize (take' 80 (drop' 10 (Source :: 'a chainNode))) = 90 \<and>
   firstPageSize (drop' 10 (take' 80 (Source :: 'a chainNode))) = 80 \<and>
   firstPageSize (drop' 10 (take' 80 (drop' 10 (Source :: 'a chainNode)))) = 90 \<and>
   firstPageSize (take' 80 (take' 100 (Source :: 'a chainNode))) = 80 \<and>
   firstPageSize (take' 100 (take' 80 (Source :: 'a chainNode))) = 80 \<and>
   firstPageSize (filter' (\<lambda>x. True) (take' 80 (Source :: 'a chainNode))) = 80 \<and>
   firstPageSize (take' 80 (filter' (\<lambda>x. True) (Source :: 'a chainNode))) = 128 \<and>
   firstPageSize (map' (\<lambda>x. x) (take' 80 (Source :: 'a chainNode))) = 80 \<and>
   firstPageSize (take' 80 (map' (\<lambda>x. x) (Source :: 'a chainNode))) = 80 \<and>
   firstPageSize (take' 300 (Source :: 'a chainNode)) = 250 \<and>
   firstPageSize (take' 3218 (Source :: 'a chainNode)) = 250"
  by (simp add: firstPageSize_def totalDemand_def take'_def drop'_def filter'_def map'_def
        DEFAULT_PAGE_SIZE_def MAX_PAGE_SIZE_def)

subsection \<open>When a failed attempt is followed by another\<close>

text \<open>
  Claim C2. Take any logical request that starts without an attempt index, and any
  attempt of its run that fails (position \<open>i\<close>, counting from 0). The attempt was sent
  with the index \<open>i\<close>, below the limit of 3. A further attempt is sent, with the next
  index, if and only if the error carries a response whose status class is 5\<times>\<times> and one
  more than the index is below the limit (stated where the list of outcomes covers a
  further attempt). An error without a response, or with a response of another status
  class, or of the attempt that reaches the limit, ends the run: no further attempt is
  sent and the promise rejects with that error. What the interceptor decides agrees
  with this.
\<close>

theorem retry_iff_server_error_and_attempts_remain:
  assumes "attemptIndex config = None"
      and "request config outs = (events, result)"
      and "i < length (sentConfigs events)"
      and "settle (sentConfigs events ! i) (outs ! i) = Inl error"
  shows "sentConfigs events ! i = config\<lparr>attemptIndex := Some (int i)\<rparr> \<and>
         int i < attemptLimit \<and> attemptLimit = 3 \<and>
         (Suc i < length outs \<longrightarrow>
            (Suc i < length (sentConfigs events)) =
              ((\<exists>r. errorResponse error = Some r \<and> status r div 100 = 5) \<and>
               int i + 1 < attemptLimit)) \<and>
         (Suc i < length (sentConfigs events) \<longrightarrow>
            sentConfigs events ! Suc i = config\<lparr>attemptIndex := Some (int i + 1)\<rparr>) \<and>
         (errorResponse error = None \<or>
          (\<exists>r. errorResponse error = Some r \<and> status r div 100 \<noteq> 5) \<or>
          \<not> int i + 1 < attemptLimit
            \<longrightarrow> length (sentConfigs events) = Suc i \<and> result = Some (Inl error)) \<and>
         ((\<exists>d c. onRejected error = Reattempt d c) =
            ((\<exists>r. errorResponse error = Some r \<and> status r div 100 = 5) \<and>
             int i + 1 < attemptLimit))"
proof -
  have start: "attemptIndex config = (if (0::nat) = 0 then None else Some (int 0 - 1))"
    using assms(1) by simp
  note here = run_by_position [OF start _ assms(2,3), simplified]
  have sent: "sentConfigs events ! i = config\<lparr>attemptIndex := Some (int i)\<rparr>"
    and i3: "i < 3"
    using here by simp_all
  have fate:
    "if (\<exists>r. errorResponse error = Some r \<and> status r div 100 = 5) \<and>
        int i + 1 < attemptLimit
     then if Suc i < length outs then Suc i < length (sentConfigs events)
          else length (sentConfigs events) = Suc i \<and> result = None
     else length (sentConfigs events) = Suc i \<and> result = Some (Inl error)"
    using here assms(4) by simp
  have following: "sentConfigs events ! Suc i = config\<lparr>attemptIndex := Some (int i + 1)\<rparr>"
    if "Suc i < length (sentConfigs events)"
    using run_by_position [OF start _ assms(2) that, simplified] by (simp add: add.commute)
  have cfg: "errorConfig error = sentConfigs events ! i"
    using assms(4) by (rule settle_config)
  have ax: "isAxiosError error \<or> errorResponse error = None"
    using assms(4) by (rule settle_axios)
  have idx: "attemptIndex (errorConfig error) = Some (int i)" using cfg sent by simp
  note decision = onRejected_reattempt_iff(1) [OF ax idx i3]
  have a: "Suc i < length outs \<longrightarrow>
            (Suc i < length (sentConfigs events)) =
              ((\<exists>r. errorResponse error = Some r \<and> status r div 100 = 5) \<and>
               int i + 1 < attemptLimit)"
    using fate by (auto split: if_splits)
  have b: "errorResponse error = None \<or>
          (\<exists>r. errorResponse error = Some r \<and> status r div 100 \<noteq> 5) \<or>
          \<not> int i + 1 < attemptLimit
            \<longrightarrow> length (sentConfigs events) = Suc i \<and> result = Some (Inl error)"
    using fate by (auto split: if_splits)
  from sent i3 a b following decision show ?thesis
    by (simp add: attemptLimit_def)
qed

theorem retry_iff_server_error_and_attempts_remain_witness:
  "request plainConfig [Responds serverError, Responds created] =
     ([Sent (plainConfig\<lparr>attemptIndex := Some 0\<rparr>),
       Failed (axiosFailure (plainConfig\<lparr>attemptIndex := Some 0\<rparr>) (Some serverError)
                 ''Request failed''),
       Waited (Num 2000),
       Sent (plainConfig\<lparr>attemptIndex := Some 1\<rparr>)],
      Some (Inr created)) \<and>
   request plainConfig [timedOut, Responds created] =
     ([Sent (plainConfig\<lparr>attemptIndex := Some 0\<rparr>),
       Failed (axiosFailure (plainConfig\<lparr>attemptIndex := Some 0\<rparr>) None
                 ''timeout of 1000ms exceeded'')],
      Some (Inl (axiosFailure (plainConfig\<lparr>attemptIndex := Some 0\<rparr>) None
                   ''timeout of 1000ms exceeded'')))"
proof -
  let ?first = "plainConfig\<lparr>attemptIndex := Some 0\<rparr>"
  have fresh: "attemptIndex plainConfig = None"
    by (simp add: plainConfig_def baseConfig_def)
  have first: "onRequest plainConfig = ?first"
    by (simp add: onRequest_def fresh)
  have delay: "delayFor serverError = Num 2000"
    by (simp add: delayFor_absent serverError_def retryDelay_def)
  have failed: "settle ?first (Responds serverError) =
                  Inl (axiosFailure ?first (Some serverError) ''Request failed'')"
    by (simp add: settle_def serverError_def)
  have lost: "settle ?first timedOut =
                Inl (axiosFailure ?first None ''timeout of 1000ms exceeded'')"
    by (simp add: settle_def timedOut_def)
  have run1: "request plainConfig [Responds serverError, Responds created] =
     ([Sent ?first, Failed (axiosFailure ?first (Some serverError) ''Request failed''),
       Waited (Num 2000), Sent (plainConfig\<lparr>attemptIndex := Some 1\<rparr>)],
      Some (Inr created))"
    by (simp add: fresh delay [unfolded serverError_def] Let_def onRejected_def
          checkError_def axiosFailure_def attemptLimit_def onRequest_def settle_def
          created_def serverError_def)
  have run2: "request plainConfig [timedOut, Responds created] =
     ([Sent ?first, Failed (axiosFailure ?first None ''timeout of 1000ms exceeded'')],
      Some (Inl (axiosFailure ?first None ''timeout of 1000ms exceeded'')))"
    by (simp add: fresh Let_def onRejected_def checkError_def axiosFailure_def
          attemptLimit_def onRequest_def settle_def timedOut_def)
  have "Suc 0 < length (sentConfigs
          [Sent ?first, Failed (axiosFailure ?first (Some serverError) ''Request failed''),
           Waited (Num 2000), Sent (plainConfig\<lparr>attemptIndex := Some 1\<rparr>)])"
    using retry_iff_server_error_and_attempts_remain [OF fresh run1, of 0] failed
    by simp
  moreover have "Some (Inl (axiosFailure ?first None ''timeout of 1000ms exceeded'')) =
                 Some (Inl (axiosFailure ?first None ''timeout of 1000ms exceeded''))"
    using retry_iff_server_error_and_attempts_remain [OF fresh run2, of 0] lost
    by simp
  ultimately show ?thesis using run1 run2 by simp
qed

subsection \<open>A server that always fails\<close>

text \<open>
  Claim C3. A logical request that starts without an attempt index and whose first
  three attempts are each answered with a 5\<times>\<times> status is sent exactly three times, with
  attempt indices 0, 1 and 2, waits between the attempts, and then rejects with the
  error of the third attempt as Axios produced it; whatever the server would answer to
  further attempts is never asked for. The client turns that error into the API error
  made from the third response.
\<close>

theorem always_5xx_three_attempts:
  assumes "attemptIndex config = None"
      and "status a div 100 = 5" and "status b div 100 = 5" and "status c div 100 = 5"
  shows "request config (Responds a # Responds b # Responds c # rest) =
           ([Sent (config\<lparr>attemptIndex := Some 0\<rparr>),
             Failed (axiosFailure (config\<lparr>attemptIndex := Some 0\<rparr>) (Some a) ''Request failed''),
             Waited (delayFor a),
             Sent (config\<lparr>attemptIndex := Some 1\<rparr>),
             Failed (axiosFailure (config\<lparr>attemptIndex := Some 1\<rparr>) (Some b) ''Request failed''),
             Waited (delayFor b),
             Sent (config\<lparr>attemptIndex := Some 2\<rparr>),
             Failed (axiosFailure (config\<lparr>attemptIndex := Some 2\<rparr>) (Some c) ''Request failed'')],
            Some (Inl (axiosFailure (config\<lparr>attemptIndex := Some 2\<rparr>) (Some c)
                         ''Request failed''))) \<and>
         throwApiError (axiosFailure (config\<lparr>attemptIndex := Some 2\<rparr>) (Some c)
                          ''Request failed'') = ApiErrorFromResponse c"
  using assms status_5xx_not_2xx [of a] status_5xx_not_2xx [of b] status_5xx_not_2xx [of c]
  by (simp add: Let_def settle_def onRejected_def checkError_def onRequest_def
        attemptLimit_def axiosFailure_def throwApiError_def)

theorem always_5xx_three_attempts_witness:
  "sentConfigs (fst (request plainConfig
      [Responds serverError, Responds serverErrorRetryAfter, Responds serverError,
       Responds created])) =
     [plainConfig\<lparr>attemptIndex := Some 0\<rparr>, plainConfig\<lparr>attemptIndex := Some 1\<rparr>,
      plainConfig\<lparr>attemptIndex := Some 2\<rparr>] \<and>
   snd (request plainConfig
      [Responds serverError, Responds serverErrorRetryAfter, Responds serverError,
       Responds created]) =
     Some (Inl (axiosFailure (plainConfig\<lparr>attemptIndex := Some 2\<rparr>) (Some serverError)
                  ''Request failed''))"
  using always_5xx_three_attempts
          [of plainConfig serverError serverErrorRetryAfter serverError "[Responds created]"]
  by (simp add: plainConfig_def baseConfig_def serverError_def serverErrorRetryAfter_def)

subsection \<open>Idempotency keys\<close>



subsection \<open>The delay before another attempt\<close>

text \<open>
  Claim C5, as the code has it. Whenever another attempt is scheduled, the error
  carries a response, and the delay handed to the timer is read off its Retry-After
  header by \<^verbatim>\<open>parseInt\<close>. When the value starts a number (after white space and at
  most one sign, a decimal digit follows), the delay is the integer it starts with, as
  a JavaScript number, times 1000, whatever text comes after the digits: exactly 1000
  times that integer while the product is at most \<open>2^53\<close> in magnitude, the nearest
  double beyond. For a plain integer in that range it is 1000 times the header's
  value. When the header is absent or its value does not start a number, as no
  HTTP-date does, the delay is the default of 2000 milliseconds.
\<close>

theorem retry_delay_from_retry_after:
  assumes "onRejected error = Reattempt delay again"
  shows "\<exists>r. errorResponse error = Some r \<and>
           (case map_of (headers r) ''retry-after'' of
              None \<Rightarrow> delay = Num retryDelay
            | Some s \<Rightarrow>
                (plainInteger s \<and> 1000 * decimalValue s \<le> 2 ^ 53
                   \<longrightarrow> delay = Num (1000 * decimalValue s)) \<and>
                (\<not> startsNumber s \<longrightarrow> delay = Num retryDelay) \<and>
                (startsNumber s
                   \<longrightarrow> delay = multiply (toNumber (leadingInteger s)) 1000) \<and>
                (startsNumber s \<and> 1000 * \<bar>leadingInteger s\<bar> \<le> 2 ^ 53
                   \<longrightarrow> delay = Num (1000 * leadingInteger s))) \<and>
           retryDelay = 2000"
proof -
  from assms onRejected_cases [of error]
  obtain r where r: "errorResponse error = Some r" and d: "delay = delayFor r"
    by auto
  have K: "case map_of (headers r) ''retry-after'' of
          None \<Rightarrow> delay = Num retryDelay
        | Some s \<Rightarrow>
            (plainInteger s \<and> 1000 * decimalValue s \<le> 2 ^ 53
               \<longrightarrow> delay = Num (1000 * decimalValue s)) \<and>
            (\<not> startsNumber s \<longrightarrow> delay = Num retryDelay) \<and>
            (startsNumber s
               \<longrightarrow> delay = multiply (toNumber (leadingInteger s)) 1000) \<and>
            (startsNumber s \<and> 1000 * \<bar>leadingInteger s\<bar> \<le> 2 ^ 53
               \<longrightarrow> delay = Num (1000 * leadingInteger s))"
  proof (cases "map_of (headers r) ''retry-after''")
    case None
    then show ?thesis using d by (simp add: delayFor_absent)
  next
    case (Some s)
    have 1: "plainInteger s \<and> 1000 * decimalValue s \<le> 2 ^ 53
               \<longrightarrow> delay = Num (1000 * decimalValue s)"
      unfolding d using delayFor_plain [OF Some] by iprover
    have 2: "\<not> startsNumber s \<longrightarrow> delay = Num retryDelay"
      unfolding d using delayFor_nonNumeric [OF Some] by iprover
    have 3: "startsNumber s \<longrightarrow> delay = multiply (toNumber (leadingInteger s)) 1000"
      unfolding d using delayFor_leading [OF Some] by iprover
    have 4: "startsNumber s \<and> 1000 * \<bar>leadingInteger s\<bar> \<le> 2 ^ 53
               \<longrightarrow> delay = Num (1000 * leadingInteger s)"
      unfolding d using delayFor_leading_exact [OF Some] by iprover
    show ?thesis unfolding Some option.case
      by (rule conjI [OF 1 conjI [OF 2 conjI [OF 3 4]]])
  qed
  have D: "retryDelay = 2000" by (simp add: retryDelay_def)
  show ?thesis
    by (rule exI [of _ r]) (rule conjI [OF r conjI [OF K D]])
qed

theorem retry_delay_from_retry_after_witness:
  "onRejected (axiosFailure (onRequest plainConfig) (Some serverErrorRetryAfter)
      ''Request failed'') = Reattempt (Num 5000) (onRequest plainConfig) \<and>
   plainInteger ''5'' \<and> decimalValue ''5'' = 5 \<and>
   onRejected (axiosFailure (onRequest plainConfig) (Some serverErrorHttpDate)
      ''Request failed'') = Reattempt (Num 2000) (onRequest plainConfig) \<and>
   \<not> startsNumber ''Wed, 21 Oct 2015 07:28:00 GMT'' \<and>
   onRejected (axiosFailure (onRequest plainConfig) (Some serverError)
      ''Request failed'') = Reattempt (Num 2000) (onRequest plainConfig) \<and>
   onRejected (axiosFailure (onRequest plainConfig) (Some serverErrorBeyondExact)
      ''Request failed'') = Reattempt (Num 9007199254740992000) (onRequest plainConfig)"
proof -
  have retried: "onRejected (axiosFailure (onRequest plainConfig) (Some r) m) =
                   Reattempt (delayFor r) (onRequest plainConfig)"
    if "status r = 503" for r m
    using that
    by (simp add: onRejected_def checkError_def axiosFailure_def onRequest_def
          plainConfig_def baseConfig_def attemptLimit_def Let_def)
  have plain: "plainInteger ''5''" and five: "decimalValue ''5'' = 5"
    by (simp_all add: plainInteger_def isDigit_def digitValue_def)
  have date: "\<not> startsNumber ''Wed, 21 Oct 2015 07:28:00 GMT''"
    by (simp add: startsNumber_def isWhiteSpace_def isDigit_def)
  have a: "onRejected (axiosFailure (onRequest plainConfig) (Some serverErrorRetryAfter)
             ''Request failed'') =
           Reattempt (delayFor serverErrorRetryAfter) (onRequest plainConfig)"
    by (rule retried) (simp add: serverErrorRetryAfter_def)
  have b: "onRejected (axiosFailure (onRequest plainConfig) (Some serverErrorHttpDate)
             ''Request failed'') =
           Reattempt (delayFor serverErrorHttpDate) (onRequest plainConfig)"
    by (rule retried) (simp add: serverErrorHttpDate_def)
  have c: "onRejected (axiosFailure (onRequest plainConfig) (Some serverError)
             ''Request failed'') =
           Reattempt (delayFor serverError) (onRequest plainConfig)"
    by (rule retried) (simp add: serverError_def)
  have e: "onRejected (axiosFailure (onRequest plainConfig) (Some serverErrorBeyondExact)
             ''Request failed'') =
           Reattempt (delayFor serverErrorBeyondExact) (onRequest plainConfig)"
    by (rule retried) (simp add: serverErrorBeyondExact_def)
  have five_seconds: "delayFor serverErrorRetryAfter = Num 5000"
  proof -
    from retry_delay_from_retry_after [OF a]
    obtain r where all:
      "errorResponse (axiosFailure (onRequest plainConfig) (Some serverErrorRetryAfter)
         ''Request failed'') = Some r \<and>
       (case map_of (headers r) ''retry-after'' of
          None \<Rightarrow> delayFor serverErrorRetryAfter = Num retryDelay
        | Some s \<Rightarrow>
            (plainInteger s \<and> 1000 * decimalValue s \<le> 2 ^ 53
               \<longrightarrow> delayFor serverErrorRetryAfter = Num (1000 * decimalValue s)) \<and>
            (\<not> startsNumber s \<longrightarrow> delayFor serverErrorRetryAfter = Num retryDelay) \<and>
            (startsNumber s
               \<longrightarrow> delayFor serverErrorRetryAfter =
                     multiply (toNumber (leadingInteger s)) 1000) \<and>
            (startsNumber s \<and> 1000 * \<bar>leadingInteger s\<bar> \<le> 2 ^ 53
               \<longrightarrow> delayFor serverErrorRetryAfter = Num (1000 * leadingInteger s))) \<and>
       retryDelay = 2000" ..
    have req: "r = serverErrorRetryAfter"
      using all [THEN conjunct1] by (simp add: axiosFailure_def)
    have h: "map_of (headers serverErrorRetryAfter) ''retry-after'' = Some ''5''"
      by (simp add: serverErrorRetryAfter_def)
    note k = all [THEN conjunct2, THEN conjunct1, unfolded req h option.case]
    have bound: "1000 * decimalValue ''5'' \<le> (2 :: int) ^ 53" unfolding five by simp
    from k [THEN conjunct1] plain bound
    have "delayFor serverErrorRetryAfter = Num (1000 * decimalValue ''5'')" by iprover
    then show ?thesis unfolding five by simp
  qed
  have http_date: "delayFor serverErrorHttpDate = Num 2000"
    using delayFor_nonNumeric [of serverErrorHttpDate "''Wed, 21 Oct 2015 07:28:00 GMT''"]
      date
    by (simp add: serverErrorHttpDate_def retryDelay_def)
  have absent: "delayFor serverError = Num 2000"
    by (simp add: delayFor_absent serverError_def retryDelay_def)
  show ?thesis
    unfolding a b c e five_seconds http_date absent delayFor_beyond_exact
    using plain five date by simp
qed

text \<open>
  The claim as stated has every value that is not a plain integer ignored. A value
  that goes on after its leading digits, a date written with the year first among
  them, is not ignored: the delay is 1000 times the leading integer.
\<close>

theorem retry_after_leading_integer_is_used:
  "onRejected (axiosFailure (onRequest plainConfig) (Some serverErrorTrailingText)
      ''Request failed'') = Reattempt (Num 12000) (onRequest plainConfig) \<and>
   \<not> plainInteger ''12abc'' \<and>
   onRejected (axiosFailure (onRequest plainConfig) (Some serverErrorIsoDate)
      ''Request failed'') = Reattempt (Num 2015000) (onRequest plainConfig) \<and>
   \<not> plainInteger ''2015-10-21T07:28:00Z'' \<and>
   retryDelay = 2000"
  by (simp add: plainConfig_def baseConfig_def serverErrorTrailingText_def
        serverErrorIsoDate_def axiosFailure_def onRequest_def onRejected_def
        checkError_def attemptLimit_def delayFor_def parseRetryAfterHeader_def
        parseInt10_def isWhiteSpace_def isDigit_def digitValue_def retryDelay_def
        plainInteger_def Let_def toNumber_exact multiply_def)

subsection \<open>What the single-resource operations return\<close>

text \<open>
  Claim C6, as the code has it. When the request succeeds, \<^verbatim>\<open>post\<close> and \<^verbatim>\<open>delete\<close>
  return \<^verbatim>\<open>true\<close> for a response of status 204 and the response body otherwise;
  \<^verbatim>\<open>get\<close> and \<^verbatim>\<open>patch\<close> return the response body whatever the status.
\<close>

theorem returned_value_per_verb:
  "(axiosInstance this POST (relativePath @ stringifyQuery this q) body = Inr response \<longrightarrow>
      NetworkClient_post this relativePath body q =
        Inr (if status response = 204 then JBool True else data response)) \<and>
   (axiosInstance this DELETE relativePath ctx = Inr response \<longrightarrow>
      NetworkClient_delete this relativePath ctx =
        Inr (if status response = 204 then JBool True else data response)) \<and>
   (axiosInstance this GET (relativePath @ stringifyQuery this q) JUndefined = Inr response \<longrightarrow>
      NetworkClient_get this relativePath q = Inr (data response)) \<and>
   (axiosInstance this PATCH relativePath body = Inr response \<longrightarrow>
      NetworkClient_patch this relativePath body = Inr (data response))"
  by (simp add: NetworkClient_post_def NetworkClient_delete_def NetworkClient_get_def
        NetworkClient_patch_def)

theorem returned_value_per_verb_witness:
  "NetworkClient_post noContentClient ''payments/tr_Eq8xzWUPA4'' JUndefined [] =
     Inr (JBool True) \<and>
   NetworkClient_delete noContentClient ''payments/tr_Eq8xzWUPA4'' JUndefined =
     Inr (JBool True) \<and>
   NetworkClient_get noContentClient ''payments/tr_Eq8xzWUPA4'' [] = Inr (JStr []) \<and>
   NetworkClient_patch noContentClient ''payments/tr_Eq8xzWUPA4'' JUndefined = Inr (JStr [])"
  using returned_value_per_verb
          [where this = noContentClient and relativePath = "''payments/tr_Eq8xzWUPA4''"
             and q = "[]" and body = JUndefined and ctx = JUndefined
             and response = noContent]
  by (simp add: noContentClient_def noContent_def)

text \<open>
  The claim as stated has \<^verbatim>\<open>get\<close> and \<^verbatim>\<open>patch\<close> return \<^verbatim>\<open>true\<close> for a response
  of status 204 with an empty body. They return the body, the empty string.
\<close>

theorem get_and_patch_return_body_on_204:
  "NetworkClient_get noContentClient ''payments/tr_Eq8xzWUPA4'' [] \<noteq> Inr (JBool True) \<and>
   NetworkClient_patch noContentClient ''payments/tr_Eq8xzWUPA4'' JUndefined \<noteq>
     Inr (JBool True)"
  by (simp add: NetworkClient_get_def NetworkClient_patch_def noContentClient_def
        noContent_def)

subsection \<open>A list response without the envelope\<close>

text \<open>
  Claim C7 says that a 2\<times>\<times> list response whose body lacks \<^verbatim>\<open>_embedded\<close> surfaces the
  API error \<open>Received unexpected response from the server\<close>. For the body \<^verbatim>\<open>{}\<close> the
  method throws a TypeError instead: the destructuring inside the \<^verbatim>\<open>try\<close> block
  succeeds, and \<^verbatim>\<open>embedded[type]\<close> fails after it.
\<close>

theorem list_without_embedded_throws_TypeError:
  "NetworkClient_list emptyObjectClient ''payments'' ''payments'' [] = Inl TypeError"
  by (simp add: NetworkClient_list_def emptyObjectClient_def nullish_def Let_def)

text \<open>The API error is what a body of \<^verbatim>\<open>null\<close> gives.\<close>

lemma list_null_body_throws_ApiError:
  "NetworkClient_list nullBodyClient ''payments'' ''payments'' [] =
     Inl (ApiError ''Received unexpected response from the server'')"
  by (simp add: NetworkClient_list_def nullBodyClient_def nullish_def)

subsection \<open>Breaking out of the iteration\<close>

text \<open>
  Claim C8. When the consumer has taken the first step of an iteration, exactly one
  request has been made, the one for the first page, whatever that page holds (a
  continuation link, fewer items than the low-water mark): the check for the next page
  runs only when the generator is resumed. If the consumer then breaks, the generator
  is completed and the count stays at one, whatever is tried on the iterator afterwards.
\<close>

theorem break_after_first_item_single_request:
  "(generatorNext client (fst (iterate firstPageArguments))
      (snd (iterate firstPageArguments)) = (result, suspended, journal) \<longrightarrow>
    issuedCalls journal = [firstPageArguments]) \<and>
   (consume client (Next # Break # steps) (fst (iterate firstPageArguments))
      (snd (iterate firstPageArguments)) = (gen, trace) \<longrightarrow>
    issuedCalls trace = [firstPageArguments] \<and> gen = Completed)"
proof -
  have first: "issuedCalls j = [firstPageArguments]"
    if "generatorNext client (Fresh firstPageArguments) [] = (r, g, j)" for r g j
    using generatorNext_issues [OF that] by simp
  have "issuedCalls trace = [firstPageArguments] \<and> gen = Completed"
    if c: "consume client (Next # Break # steps) (fst (iterate firstPageArguments))
             (snd (iterate firstPageArguments)) = (gen, trace)"
  proof -
    obtain r g j
      where n: "generatorNext client (Fresh firstPageArguments) [] = (r, g, j)"
      by (cases "generatorNext client (Fresh firstPageArguments) []") auto
    from c n have "consume client steps Completed j = (gen, trace)"
      by (simp add: iterate_def generatorReturn_def)
    with consume_completed [of client steps j] first [OF n] show ?thesis by simp
  qed
  with first show ?thesis by (simp add: iterate_def)
qed

theorem break_after_first_item_single_request_witness:
  "generatorNext shortPageClient (fst (iterate firstCall)) (snd (iterate firstCall)) =
     (Value 1,
      AtYield firstCall
        \<lparr>pageItems = [Some 2], nextLink = Some ''payments?from=tr_3&limit=2''\<rparr> None,
      [Issued firstCall, Settled firstCall, Yielded 1]) \<and>
   consume shortPageClient [Next, Break, Next] (fst (iterate firstCall))
     (snd (iterate firstCall)) =
     (Completed, [Issued firstCall, Settled firstCall, Yielded 1]) \<and>
   issuedCalls [Issued firstCall, Settled firstCall, Yielded (1 :: nat)] = [firstCall]"
  using break_after_first_item_single_request
          [of shortPageClient firstCall "Value 1"
              "AtYield firstCall
                 \<lparr>pageItems = [Some 2], nextLink = Some ''payments?from=tr_3&limit=2''\<rparr>
                 None"
              "[Issued firstCall, Settled firstCall, Yielded 1]"
              "[Next]" Completed "[Issued firstCall, Settled firstCall, Yielded 1]"]
  by (simp add: iterate_def generatorNext_def generatorReturn_def shortPageClient_def
        shortPage_def pull.simps)

subsection \<open>When the next page is requested\<close>

text \<open>
  Claim C9. When the generator is resumed after yielding an item, it requests the next
  page exactly when no request is pending, the current page has a continuation link
  and fewer items than the low-water mark of 5.5 are left in it; the request is for
  that link. Consequently, however the consumer drives an iterator, at no moment
  is more than one of its page requests made and not yet awaited.
\<close>

theorem next_page_request_conditions:
  "iteratorLowWaterMark = 5.5 \<and>
   (generatorNext client (AtYield args currentPage nextPage) journal =
      (result, gen', journal') \<longrightarrow>
    issuedCalls journal' =
      issuedCalls journal @
        (case nextLink currentPage of
           Some href \<Rightarrow>
             if nextPage = None \<and>
                real (length (pageItems currentPage)) < iteratorLowWaterMark
             then [ListCall href (typeArgument args) None]
             else []
         | None \<Rightarrow> []) \<and>
    ((issuedCalls journal' \<noteq> issuedCalls journal) =
     (nextPage = None \<and> nextLink currentPage \<noteq> None \<and>
      real (length (pageItems currentPage)) < iteratorLowWaterMark))) \<and>
   (consume client steps (fst (iterate firstPageArguments))
      (snd (iterate firstPageArguments)) = (gen, trace) \<longrightarrow>
    peakInFlight 0 trace \<le> 1)"
proof -
  have a: "issuedCalls journal' =
      issuedCalls journal @
        (case nextLink currentPage of
           Some href \<Rightarrow>
             if nextPage = None \<and>
                real (length (pageItems currentPage)) < iteratorLowWaterMark
             then [ListCall href (typeArgument args) None]
             else []
         | None \<Rightarrow> [])"
    if "generatorNext client (AtYield args currentPage nextPage) journal =
          (result, gen', journal')"
    using generatorNext_issues [OF that] by simp
  have b: "(issuedCalls journal' \<noteq> issuedCalls journal) =
     (nextPage = None \<and> nextLink currentPage \<noteq> None \<and>
      real (length (pageItems currentPage)) < iteratorLowWaterMark)"
    if "generatorNext client (AtYield args currentPage nextPage) journal =
          (result, gen', journal')"
    using a [OF that] by (auto split: option.splits if_splits)
  have c: "peakInFlight 0 trace \<le> 1"
    if "consume client steps (fst (iterate firstPageArguments))
          (snd (iterate firstPageArguments)) = (gen, trace)"
    using that
    by (rule consume_peak) (simp_all add: iterate_def)
  from a b c show ?thesis by (simp add: iteratorLowWaterMark_def)
qed

theorem next_page_request_conditions_witness:
  "generatorNext shortPageClient
     (AtYield firstCall
        \<lparr>pageItems = [Some 2], nextLink = Some ''payments?from=tr_3&limit=2''\<rparr> None)
     [Issued firstCall, Settled firstCall, Yielded 1] =
     (Value 2,
      AtYield firstCall \<lparr>pageItems = [], nextLink = Some ''payments?from=tr_3&limit=2''\<rparr>
        (Some (ListCall ''payments?from=tr_3&limit=2'' ''payments'' None, Inr shortPage)),
      [Issued firstCall, Settled firstCall, Yielded 1,
       Issued (ListCall ''payments?from=tr_3&limit=2'' ''payments'' None), Yielded 2]) \<and>
   peakInFlight 0
     (snd (consume shortPageClient [Next, Next, Next, Next, Break] (fst (iterate firstCall))
             (snd (iterate firstCall)))) \<le> 1"
  using next_page_request_conditions
          [of shortPageClient firstCall
              "\<lparr>pageItems = [Some 2], nextLink = Some ''payments?from=tr_3&limit=2''\<rparr>"
              None "[Issued firstCall, Settled firstCall, Yielded 1]"
              "Value 2"
              "AtYield firstCall
                 \<lparr>pageItems = [], nextLink = Some ''payments?from=tr_3&limit=2''\<rparr>
                 (Some (ListCall ''payments?from=tr_3&limit=2'' ''payments'' None,
                        Inr shortPage))"
              "[Issued firstCall, Settled firstCall, Yielded 1,
                Issued (ListCall ''payments?from=tr_3&limit=2'' ''payments'' None),
                Yielded 2]"
              "[Next, Next, Next, Next, Break]" firstCall
              "fst (consume shortPageClient [Next, Next, Next, Next, Break]
                      (fst (iterate firstCall)) (snd (iterate firstCall)))"
              "snd (consume shortPageClient [Next, Next, Next, Next, Break]
                      (fst (iterate firstCall)) (snd (iterate firstCall)))"]
  by (simp add: generatorNext_def shortPageClient_def shortPage_def firstCall_def
        iteratorLowWaterMark_def pull.simps Let_def)

subsection \<open>Permission identifiers\<close>

text \<open>
  Claim C10. The prefix map has no entry for the resource \<open>permission\<close>, so a call of
  \<^verbatim>\<open>PermissionsBinder.get\<close> with an identifier (and no callback) throws the API error
  \<open>The permission id is invalid\<close>, having requested nothing from the network client,
  for every identifier that does not begin with the characters \<open>undefined\<close>.
\<close>

theorem permission_id_rejected:
  "map_of prefixes ''permission'' = None \<and>
   (\<not> startsWith id' ''undefined'' \<longrightarrow>
      PermissionsBinder_get False networkClientGet id' =
        ([], Inl (ApiError ''The permission id is invalid'')))"
  by (simp add: PermissionsBinder_get_def checkId_def prefixes_def)

theorem permission_id_rejected_witness:
  "\<not> startsWith ''payments.read'' ''undefined'' \<and>
   PermissionsBinder_get False (\<lambda>path. path) ''payments.read'' =
     ([], Inl (ApiError ''The permission id is invalid''))"
  using permission_id_rejected [of "''payments.read''" "\<lambda>path. path"]
  by (simp add: startsWith_def)

end
